theory Spec2Isabelle
  imports Main
begin

section \<open>Calendar dates\<close>

text \<open>
  The repository reads the clock (\<open>date.today()\<close>), adds a \<open>timedelta\<close> to a date, builds
  a date with \<open>datetime(year, month, day).date()\<close> and compares dates. These come from
  Python's \<open>datetime\<close> module; the definitions below follow that module's documented
  behaviour: the proleptic Gregorian calendar, years 1 to 9999 and \<open>ValueError\<close> for
  fields out of range. The clock's year is far below 9999, the module's last year, so the
  sum \<open>date.today() + timedelta(days=6)\<close> is a date and the model leaves the module's
  \<open>OverflowError\<close> out.
\<close>

text \<open>
  \<open>ValueError\<close> comes from the date constructor. \<open>StoreFailure\<close> is the spec's name for an
  error of the persistence layer that a commit raises and the repository lets through.
\<close>

datatype error = ValueError | StoreFailure

record date =
  year :: int
  month :: int
  day :: int

definition is_leap :: "int \<Rightarrow> bool" where
  "is_leap y = (y mod 4 = 0 \<and> (y mod 100 \<noteq> 0 \<or> y mod 400 = 0))"

definition days_in_month :: "int \<Rightarrow> int \<Rightarrow> int" where
  "days_in_month y m =
     (if m = 2 then (if is_leap y then 29 else 28)
      else if m = 4 \<or> m = 6 \<or> m = 9 \<or> m = 11 then 30
      else 31)"

definition valid_ymd :: "int \<Rightarrow> int \<Rightarrow> int \<Rightarrow> bool" where
  "valid_ymd y m d =
     (1 \<le> y \<and> y \<le> 9999 \<and> 1 \<le> m \<and> m \<le> 12 \<and> 1 \<le> d \<and> d \<le> days_in_month y m)"

text \<open>\<open>datetime(y, m, d).date()\<close>: the constructor checks its fields and raises \<open>ValueError\<close>.\<close>

definition datetime :: "int \<Rightarrow> int \<Rightarrow> int \<Rightarrow> error + date" where
  "datetime y m d =
     (if valid_ymd y m d then Inr \<lparr>year = y, month = m, day = d\<rparr> else Inl ValueError)"

text \<open>\<open>a <= b\<close> on dates compares year, then month, then day.\<close>

definition date_le :: "date \<Rightarrow> date \<Rightarrow> bool" where
  "date_le a b =
     (year a < year b \<or>
      (year a = year b \<and> (month a < month b \<or> (month a = month b \<and> day a \<le> day b))))"

definition next_day :: "date \<Rightarrow> date" where
  "next_day t =
     (if day t < days_in_month (year t) (month t) then t\<lparr>day := day t + 1\<rparr>
      else if month t < 12 then t\<lparr>month := month t + 1, day := 1\<rparr>
      else \<lparr>year = year t + 1, month = 1, day = 1\<rparr>)"

text \<open>\<open>t + timedelta(days=n)\<close> for \<open>n \<ge> 0\<close>.\<close>

fun add_days :: "nat \<Rightarrow> date \<Rightarrow> date" where
  "add_days 0 t = t"
| "add_days (Suc n) t = add_days n (next_day t)"

text \<open>
  A \<open>datetime\<close>: a date and the time of day, in microseconds after midnight. Its
  attributes \<open>.month\<close> and \<open>.day\<close> are those of the date.
\<close>

record timestamp =
  ts_date :: date
  ts_time :: nat

definition midnight :: "date \<Rightarrow> timestamp" where
  "midnight t = \<lparr>ts_date = t, ts_time = 0\<rparr>"

section \<open>Data model\<close>

text \<open>
  \<open>src/database/models.py\<close>: a row of the table \<open>contacts\<close>, as the store gives it back.
  The primary key \<open>id\<close> is written \<open>id'\<close>. \<open>name\<close>, \<open>lastname\<close> and \<open>phone\<close> are
  \<open>String(50)\<close>, \<open>description\<close> is \<open>String(250)\<close> and may be \<open>NULL\<close>, \<open>email\<close> is an
  \<open>EmailType\<close> column (255 characters), \<open>born_date\<close> is a \<open>DateTime\<close> column, so the store
  gives a \<open>datetime\<close> back. Of a \<open>User\<close> the repository reads the primary key only, written
  \<open>uid\<close>.
\<close>

record Contact =
  id' :: int
  name :: string
  lastname :: string
  email :: string
  phone :: string
  born_date :: timestamp
  description :: "string option"
  user_id :: int

record User =
  uid :: int

text \<open>
  \<open>src/schemas.py\<close>: the payload \<open>ContactModel\<close> of a creation, and the bounds its fields
  are validated against when the payload is built. The pattern of the phone number and the
  syntax of the email are left out: no property below depends on them.
\<close>

record ContactModel =
  cm_name :: string
  cm_lastname :: string
  cm_email :: string
  cm_phone :: string
  cm_born_date :: date
  cm_description :: "string option"


text \<open>
  Modelled from the spec: the Contact Store behind the SQLAlchemy \<open>Session\<close>, which is not
  code of this repository. The spec asks of it insert-and-return-with-id (ids are
  system-generated and unique), a scan filtered by owner, a point lookup, in-place update,
  delete-by-row and commit on write, and lets a failure of the store through to the caller.
  The store is the list of rows in store order together with the next primary key the
  store hands out; a new row is appended.
\<close>

record Session =
  rows :: "Contact list"
  next_id :: int

text \<open>The primary-key constraint of \<open>contacts.id\<close>, and keys come from the sequence.\<close>

definition wf_store :: "Session \<Rightarrow> bool" where
  "wf_store db = (distinct (map id' (rows db)) \<and> list_all (\<lambda>c. id' c < next_id db) (rows db))"

text \<open>\<open>Query.first()\<close>: the first row of the result, or \<open>None\<close>.\<close>

definition first :: "'a list \<Rightarrow> 'a option" where
  "first xs = (case xs of [] \<Rightarrow> None | x # _ \<Rightarrow> Some x)"

text \<open>Truthiness of an optional string argument: \<open>None\<close> and \<open>""\<close> are falsy.\<close>

definition truthy :: "string option \<Rightarrow> bool" where
  "truthy v = (case v of None \<Rightarrow> False | Some s \<Rightarrow> s \<noteq> [])"

subsection \<open>What the column types do\<close>

text \<open>
  \<open>EmailType\<close> writes an email in lower case and compares emails in lower case:
  \<open>Contact.email == email\<close> is \<open>lower(contacts.email) = lower(email)\<close>. \<open>lower\<close> maps the
  letters A to Z to a to z and leaves every other character as it is.
\<close>

definition lower_char :: "char \<Rightarrow> char" where
  "lower_char c =
     (case map_of (zip ''ABCDEFGHIJKLMNOPQRSTUVWXYZ'' ''abcdefghijklmnopqrstuvwxyz'') c of
        None \<Rightarrow> c
      | Some l \<Rightarrow> l)"

definition lower :: "string \<Rightarrow> string" where
  "lower s = map lower_char s"

text \<open>A value longer than its \<open>String(n)\<close> column is refused by the store; \<open>None\<close> fits.\<close>

definition fits :: "nat \<Rightarrow> string option \<Rightarrow> bool" where
  "fits n v = (case v of None \<Rightarrow> True | Some s \<Rightarrow> length s \<le> n)"

text \<open>
  The commit of an update sends the assigned values to their columns. A text assigned to
  \<open>born_date\<close> is read as a timestamp by the database engine, which is not code of the
  repository: the reading is the parameter \<open>to_timestamp\<close>, \<open>None\<close> for a text the engine
  refuses. The commit succeeds when every assigned text fits its column and the engine
  reads the text assigned to \<open>born_date\<close>.
\<close>

definition commit_ok ::
  "(string \<Rightarrow> timestamp option) \<Rightarrow> string option \<Rightarrow> string option \<Rightarrow> string option \<Rightarrow>
   string option \<Rightarrow> string option \<Rightarrow> string option \<Rightarrow> bool" where
  "commit_ok to_timestamp name' lastname' email' phone' born_date' description' =
     (fits 50 name' \<and> fits 50 lastname' \<and> fits 255 email' \<and> fits 50 phone'
      \<and> (case born_date' of None \<Rightarrow> True | Some s \<Rightarrow> s = [] \<or> to_timestamp s \<noteq> None)
      \<and> fits 250 description')"

section \<open>The repository: \<open>src/repository/contacts.py\<close>\<close>

text \<open>
  \<open>create_contact\<close>: the row is written through the column types and read back by
  \<open>db.refresh\<close>, so the email comes back in lower case and the date of birth as the
  timestamp of its midnight. A payload built by \<open>ContactModel\<close> fits the columns; the
  store refuses any other.
\<close>

definition create_contact ::
  "ContactModel \<Rightarrow> User \<Rightarrow> Session \<Rightarrow> error + Contact \<times> Session" where
  "create_contact contact user db =
     (if fits 50 (Some (cm_name contact)) \<and> fits 50 (Some (cm_lastname contact))
         \<and> fits 255 (Some (cm_email contact)) \<and> fits 50 (Some (cm_phone contact))
         \<and> fits 250 (cm_description contact)
      then
        (let new_contact =
               \<lparr>id' = next_id db,
                name = cm_name contact,
                lastname = cm_lastname contact,
                email = lower (cm_email contact),
                phone = cm_phone contact,
                born_date = midnight (cm_born_date contact),
                description = cm_description contact,
                user_id = uid user\<rparr>
         in Inr (new_contact, db\<lparr>rows := rows db @ [new_contact], next_id := next_id db + 1\<rparr>))
      else Inl StoreFailure)"

definition get_contacts :: "User \<Rightarrow> Session \<Rightarrow> Contact list" where
  "get_contacts user db = filter (\<lambda>c. user_id c = uid user) (rows db)"

definition get_contact :: "int \<Rightarrow> User \<Rightarrow> Session \<Rightarrow> Contact option" where
  "get_contact contact_id user db =
     first (filter (\<lambda>c. id' c = contact_id \<and> user_id c = uid user) (rows db))"

text \<open>
  One conditional assignment of \<open>update_contact\<close>, \<open>if v: target_contact.f = v\<close>: the
  setter \<open>f\<close> runs when the argument is a non-empty string. An argument is \<open>None\<close> when the
  caller leaves it out.
\<close>

definition set_if :: "string option \<Rightarrow> (string \<Rightarrow> Contact \<Rightarrow> Contact) \<Rightarrow> Contact \<Rightarrow> Contact" where
  "set_if v f t = (case v of None \<Rightarrow> t | Some s \<Rightarrow> if s \<noteq> [] then f s t else t)"

text \<open>The row after a text is assigned to \<open>born_date\<close> and the engine has read it.\<close>

definition set_born_date :: "(string \<Rightarrow> timestamp option) \<Rightarrow> string \<Rightarrow> Contact \<Rightarrow> Contact" where
  "set_born_date to_timestamp s t =
     (case to_timestamp s of None \<Rightarrow> t | Some v \<Rightarrow> t\<lparr>born_date := v\<rparr>)"

text \<open>
  The six conditional assignments, in the source's order (\<open>name\<close> first), with the values
  as the columns store them and the returned object shows them after the commit.
\<close>

definition assign_fields ::
  "(string \<Rightarrow> timestamp option) \<Rightarrow> string option \<Rightarrow> string option \<Rightarrow> string option \<Rightarrow>
   string option \<Rightarrow> string option \<Rightarrow> string option \<Rightarrow> Contact \<Rightarrow> Contact" where
  "assign_fields to_timestamp name' lastname' email' phone' born_date' description'
     target_contact =
     set_if description' (\<lambda>s t. t\<lparr>description := Some s\<rparr>)
       (set_if born_date' (set_born_date to_timestamp)
         (set_if phone' (\<lambda>s t. t\<lparr>phone := s\<rparr>)
           (set_if email' (\<lambda>s t. t\<lparr>email := lower s\<rparr>)
             (set_if lastname' (\<lambda>s t. t\<lparr>lastname := s\<rparr>)
               (set_if name' (\<lambda>s t. t\<lparr>name := s\<rparr>) target_contact)))))"

text \<open>
  \<open>update_contact\<close> returns \<open>None\<close> before touching the store when the lookup finds no row.
  Otherwise \<open>db.commit()\<close> writes the changed object back to the row with its primary key,
  or raises when the store refuses a value; then nothing is written.
\<close>

definition update_contact ::
  "(string \<Rightarrow> timestamp option) \<Rightarrow> int \<Rightarrow> User \<Rightarrow> Session \<Rightarrow> string option \<Rightarrow>
   string option \<Rightarrow> string option \<Rightarrow> string option \<Rightarrow> string option \<Rightarrow> string option \<Rightarrow>
   error + Contact option \<times> Session" where
  "update_contact to_timestamp contact_id user db name' lastname' email' phone' born_date'
     description' =
     (case first (filter (\<lambda>c. id' c = contact_id \<and> user_id c = uid user) (rows db)) of
        None \<Rightarrow> Inr (None, db)
      | Some target_contact \<Rightarrow>
          if commit_ok to_timestamp name' lastname' email' phone' born_date' description'
          then
            (let updated = assign_fields to_timestamp name' lastname' email' phone' born_date'
                             description' target_contact
             in Inr (Some updated,
                  db\<lparr>rows :=
                       map (\<lambda>c. if id' c = id' target_contact then updated else c) (rows db)\<rparr>))
          else Inl StoreFailure)"

text \<open>\<open>db.delete(item)\<close> deletes the row with the item's primary key.\<close>

definition delete_contact :: "int \<Rightarrow> User \<Rightarrow> Session \<Rightarrow> Contact option \<times> Session" where
  "delete_contact contact_id user db =
     (case first (filter (\<lambda>c. id' c = contact_id \<and> user_id c = uid user) (rows db)) of
        None \<Rightarrow> (None, db)
      | Some item \<Rightarrow> (Some item, db\<lparr>rows := filter (\<lambda>c. id' c \<noteq> id' item) (rows db)\<rparr>))"

text \<open>
  \<open>search_data\<close>: names and lastnames are compared as they are, emails through the
  comparison of \<open>EmailType\<close>.
\<close>

definition search_data ::
  "User \<Rightarrow> Session \<Rightarrow> string option \<Rightarrow> string option \<Rightarrow> string option \<Rightarrow> Contact option" where
  "search_data user db name' lastname' email' =
     (if truthy name' then
        first (filter (\<lambda>c. Some (name c) = name' \<and> user_id c = uid user) (rows db))
      else if truthy lastname' then
        first (filter (\<lambda>c. Some (lastname c) = lastname' \<and> user_id c = uid user) (rows db))
      else if truthy email' then
        first (filter (\<lambda>c. Some (lower (email c)) = map_option lower email'
                            \<and> user_id c = uid user) (rows db))
      else None)"

text \<open>
  The loop of \<open>birthday_to_week\<close> over the owner's rows, with the list \<open>happy_users\<close> built so
  far. The date constructor raises \<open>ValueError\<close>, which ends the loop.
\<close>

fun birthday_loop :: "date \<Rightarrow> date \<Rightarrow> Contact list \<Rightarrow> Contact list \<Rightarrow> error + Contact list" where
  "birthday_loop today week [] happy_users = Inr happy_users"
| "birthday_loop today week (u # users) happy_users =
     (case datetime (year today) (month (ts_date (born_date u))) (day (ts_date (born_date u))) of
        Inl e \<Rightarrow> Inl e
      | Inr bday \<Rightarrow>
          if date_le today bday \<and> date_le bday week
          then birthday_loop today week users (happy_users @ [u])
          else birthday_loop today week users happy_users)"

text \<open>
  \<open>birthday_to_week\<close>; the clock's date is the argument \<open>today\<close>. The source reads the
  clock at each use; the model takes one reading, as in a run that does not cross midnight.
  \<open>Inr None\<close> is the return without a value for an owner with no rows, which comes before
  the window is computed.
\<close>

definition birthday_to_week :: "User \<Rightarrow> Session \<Rightarrow> date \<Rightarrow> error + Contact list option" where
  "birthday_to_week user db today =
     (let users = filter (\<lambda>c. user_id c = uid user) (rows db) in
      if users = [] then Inr None
      else
        (let week = add_days 6 today in
         case birthday_loop today week users [] of
           Inl e \<Rightarrow> Inl e
         | Inr happy_users \<Rightarrow> Inr (Some happy_users)))"

section \<open>Vocabulary of the properties\<close>


text \<open>
  The birthday of a contact re-anchored to the current year: the stored month and day with
  the year of \<open>today\<close>, when they form a date of that year.
\<close>

definition birthday_this_year :: "date \<Rightarrow> Contact \<Rightarrow> date option" where
  "birthday_this_year today c =
     (let b = ts_date (born_date c) in
      if valid_ymd (year today) (month b) (day b)
      then Some \<lparr>year = year today, month = month b, day = day b\<rparr> else None)"

definition formable :: "date \<Rightarrow> Contact \<Rightarrow> bool" where
  "formable today c = (birthday_this_year today c \<noteq> None)"

text \<open>The re-anchored birthday lies in the inclusive window from \<open>today\<close> to \<open>today\<close> + 6 days.\<close>

definition in_window :: "date \<Rightarrow> Contact \<Rightarrow> bool" where
  "in_window today c =
     (case birthday_this_year today c of
        None \<Rightarrow> False
      | Some bday \<Rightarrow> date_le today bday \<and> date_le bday (add_days 6 today))"

text \<open>The rows of the store that belong to other owners than \<open>user\<close>.\<close>

definition foreign_rows :: "User \<Rightarrow> Session \<Rightarrow> Contact list" where
  "foreign_rows user db = filter (\<lambda>c. user_id c \<noteq> uid user) (rows db)"

section \<open>Example data\<close>

text \<open>
  Three accounts, the third without contacts, and the contacts of the repository's unit
  tests; an engine that reads one text as a timestamp and refuses every other; a payload
  with a capital letter in its email.
\<close>

definition alice :: User where "alice = \<lparr>uid = 1\<rparr>"

definition bob :: User where "bob = \<lparr>uid = 2\<rparr>"

definition carol :: User where "carol = \<lparr>uid = 3\<rparr>"

definition bill :: Contact where
  "bill = \<lparr>id' = 1, name = ''Bill'', lastname = ''Fork'', email = ''fork_bill@gmail.com'',
           phone = ''3800502128506'',
           born_date = midnight \<lparr>year = 1988, month = 1, day = 12\<rparr>,
           description = Some ''Just friend'', user_id = 1\<rparr>"

definition deira :: Contact where
  "deira = \<lparr>id' = 2, name = ''Deira'', lastname = ''Hadid'', email = ''dhadid@gmail.com'',
            phone = ''3800502128506'',
            born_date = midnight \<lparr>year = 1990, month = 6, day = 3\<rparr>,
            description = None, user_id = 2\<rparr>"

definition store0 :: Session where
  "store0 = \<lparr>rows = [bill, deira], next_id = 3\<rparr>"



definition engine :: "string \<Rightarrow> timestamp option" where
  "engine s =
     (if s = ''1988-01-12'' then Some (midnight \<lparr>year = 1988, month = 1, day = 12\<rparr>) else None)"

text \<open>
  The two days and the contacts of the birthday examples: one born on 1990-06-03, one on
  1985-06-10 and one on 1992-02-29.
\<close>

definition today24 :: date where "today24 = \<lparr>year = 2024, month = 6, day = 1\<rparr>"

definition today25 :: date where "today25 = \<lparr>year = 2025, month = 6, day = 1\<rparr>"

definition june3 :: Contact where
  "june3 = \<lparr>id' = 3, name = ''Bill'', lastname = ''Fork'', email = ''fork_bill@gmail.com'',
            phone = ''3800502128506'',
            born_date = midnight \<lparr>year = 1990, month = 6, day = 3\<rparr>,
            description = Some ''Just friend'', user_id = 1\<rparr>"

definition june10 :: Contact where
  "june10 = \<lparr>id' = 4, name = ''Brenda'', lastname = ''Gerard'', email = ''breger@gmail.com'',
             phone = ''3800502128506'',
             born_date = midnight \<lparr>year = 1985, month = 6, day = 10\<rparr>,
             description = None, user_id = 1\<rparr>"

definition leapling :: Contact where
  "leapling = \<lparr>id' = 5, name = ''Deira'', lastname = ''Hadid'', email = ''dhadid@gmail.com'',
               phone = ''3800502128506'',
               born_date = midnight \<lparr>year = 1992, month = 2, day = 29\<rparr>,
               description = None, user_id = 1\<rparr>"

definition store_june :: Session where
  "store_june = \<lparr>rows = [june3, june10], next_id = 5\<rparr>"

definition store_leap :: Session where
  "store_leap = \<lparr>rows = [leapling, june3], next_id = 6\<rparr>"

definition store_leap_only :: Session where
  "store_leap_only = \<lparr>rows = [leapling], next_id = 6\<rparr>"

section \<open>Auxiliary facts\<close>

lemma first_filter_find: "first (filter P xs) = List.find P xs"
  by (induction xs) (auto simp: first_def)

lemma first_filter_None: "first (filter P xs) = None \<longleftrightarrow> \<not> (\<exists>x\<in>set xs. P x)"
  by (auto simp: first_filter_find find_None_iff)

lemma first_filter_Some: "first (filter P xs) = Some x \<Longrightarrow> x \<in> set xs \<and> P x"
  by (auto simp: first_filter_find find_Some_iff)

lemma set_if_frame: "(\<And>s t. g (f s t) = g t) \<Longrightarrow> g (set_if v f t) = g t"
  by (simp add: set_if_def split: option.splits)


lemma set_born_date_sel:
  "id' (set_born_date ts s t) = id' t"
  "name (set_born_date ts s t) = name t"
  "lastname (set_born_date ts s t) = lastname t"
  "email (set_born_date ts s t) = email t"
  "phone (set_born_date ts s t) = phone t"
  "description (set_born_date ts s t) = description t"
  "user_id (set_born_date ts s t) = user_id t"
  by (simp_all add: set_born_date_def split: option.splits)

lemma assign_fields_id: "id' (assign_fields ts n l e p b d c) = id' c"
  unfolding assign_fields_def by (simp add: set_if_frame[of id'] set_born_date_sel)

lemma assign_fields_user_id: "user_id (assign_fields ts n l e p b d c) = user_id c"
  unfolding assign_fields_def by (simp add: set_if_frame[of user_id] set_born_date_sel)











text \<open>Rows, primary keys and the store invariant.\<close>

lemma first_filter_split:
  assumes "first (filter P xs) = Some x"
  shows "\<exists>ys zs. xs = ys @ x # zs \<and> P x"
proof -
  from first_filter_Some[OF assms] have m: "x \<in> set xs" and p: "P x" by simp_all
  from split_list[OF m] obtain ys zs where "xs = ys @ x # zs" by blast
  with p show ?thesis by blast
qed

lemma distinct_ids_others:
  assumes "distinct (map id' (ys @ c # zs))" and "x \<in> set ys \<or> x \<in> set zs"
  shows "id' x \<noteq> id' c"
proof -
  from assms(1) have "id' c \<notin> id' ` set ys" "id' c \<notin> id' ` set zs" by simp_all
  with assms(2) show ?thesis by (metis imageI)
qed

lemma map_replace_distinct:
  assumes "distinct (map id' (ys @ c # zs))"
  shows "map (\<lambda>x. if id' x = id' c then c' else x) (ys @ c # zs) = ys @ c' # zs"
proof -
  have "map (\<lambda>x. if id' x = id' c then c' else x) ys = ys"
    using distinct_ids_others[OF assms] by (intro map_idI) simp
  moreover have "map (\<lambda>x. if id' x = id' c then c' else x) zs = zs"
    using distinct_ids_others[OF assms] by (intro map_idI) simp
  ultimately show ?thesis by simp
qed

lemma filter_remove_distinct:
  assumes "distinct (map id' (ys @ c # zs))"
  shows "filter (\<lambda>x. id' x \<noteq> id' c) (ys @ c # zs) = ys @ zs"
proof -
  have "filter (\<lambda>x. id' x \<noteq> id' c) ys = ys"
    unfolding filter_id_conv using distinct_ids_others[OF assms] by blast
  moreover have "filter (\<lambda>x. id' x \<noteq> id' c) zs = zs"
    unfolding filter_id_conv using distinct_ids_others[OF assms] by blast
  ultimately show ?thesis by simp
qed

lemma distinct_ids_same:
  assumes "distinct (map id' xs)" and "x \<in> set xs" and "y \<in> set xs" and "id' x = id' y"
  shows "x = y"
  using assms by (metis distinct_map inj_on_eq_iff)

lemma foreign_key_not_found:
  assumes "distinct (map id' xs)" and "set ys \<subseteq> set xs" and "c \<in> set xs"
    and "user_id c \<noteq> u"
  shows "\<not> (\<exists>x\<in>set ys. id' x = id' c \<and> user_id x = u)"
proof
  assume "\<exists>x\<in>set ys. id' x = id' c \<and> user_id x = u"
  then obtain x where x: "x \<in> set ys" "id' x = id' c" "user_id x = u" by blast
  with assms(2) have "x \<in> set xs" by blast
  from distinct_ids_same[OF assms(1) this assms(3) x(2)] have "x = c" .
  with x(3) assms(4) show False by simp
qed

lemma delete_found:
  assumes "wf_store db"
    and "first (filter (\<lambda>c. id' c = contact_id \<and> user_id c = uid user) (rows db)) = Some c"
  shows "\<exists>ys zs. rows db = ys @ c # zs
           \<and> map (\<lambda>x. if id' x = id' c then c' else x) (rows db) = ys @ c' # zs
           \<and> delete_contact contact_id user db = (Some c, db\<lparr>rows := ys @ zs\<rparr>)"
proof -
  from first_filter_split[OF assms(2)] obtain ys zs where s: "rows db = ys @ c # zs" by blast
  from assms(1) s have dist: "distinct (map id' (ys @ c # zs))" by (simp add: wf_store_def)
  have m: "map (\<lambda>x. if id' x = id' c then c' else x) (rows db) = ys @ c' # zs"
    unfolding s by (rule map_replace_distinct[OF dist])
  have r: "filter (\<lambda>x. id' x \<noteq> id' c) (rows db) = ys @ zs"
    unfolding s by (rule filter_remove_distinct[OF dist])
  have dl: "delete_contact contact_id user db = (Some c, db\<lparr>rows := ys @ zs\<rparr>)"
    by (simp add: delete_contact_def assms(2) r)
  show ?thesis
  proof (intro exI conjI)
    show "rows db = ys @ c # zs" by (rule s)
    show "map (\<lambda>x. if id' x = id' c then c' else x) (rows db) = ys @ c' # zs" by (rule m)
    show "delete_contact contact_id user db = (Some c, db\<lparr>rows := ys @ zs\<rparr>)" by (rule dl)
  qed
qed

lemma update_found:
  assumes "first (filter (\<lambda>c. id' c = contact_id \<and> user_id c = uid user) (rows db)) = Some c"
  shows "update_contact ts contact_id user db n l e p b d =
           (if commit_ok ts n l e p b d
            then Inr (Some (assign_fields ts n l e p b d c),
                   db\<lparr>rows := map (\<lambda>x. if id' x = id' c then assign_fields ts n l e p b d c else x)
                                 (rows db)\<rparr>)
            else Inl StoreFailure)"
  by (simp add: update_contact_def assms Let_def)

lemma not_found:
  assumes "\<not> (\<exists>c\<in>set (rows db). id' c = contact_id \<and> user_id c = uid user)"
  shows "update_contact ts contact_id user db n l e p b d = Inr (None, db)"
    and "delete_contact contact_id user db = (None, db)"
    and "get_contact contact_id user db = None"
proof -
  from assms
  have n: "first (filter (\<lambda>c. id' c = contact_id \<and> user_id c = uid user) (rows db)) = None"
    unfolding first_filter_None by blast
  show "update_contact ts contact_id user db n l e p b d = Inr (None, db)"
    by (simp add: update_contact_def n)
  show "delete_contact contact_id user db = (None, db)"
    by (simp add: delete_contact_def n)
  show "get_contact contact_id user db = None"
    by (simp add: get_contact_def n)
qed

lemma wf_store_empty: "wf_store \<lparr>rows = [], next_id = 1\<rparr>"
  by (simp add: wf_store_def)

lemma wf_store_create:
  assumes "wf_store db" and "create_contact contact user db = Inr (new, db')"
  shows "wf_store db'"
proof -
  from assms(1) have lt: "\<forall>c\<in>set (rows db). id' c < next_id db"
    and dist: "distinct (map id' (rows db))"
    by (simp_all add: wf_store_def list_all_iff)
  from lt have fresh: "next_id db \<notin> id' ` set (rows db)" by auto
  have lt': "\<forall>c\<in>set (rows db). id' c < next_id db + 1"
  proof
    fix c
    assume "c \<in> set (rows db)"
    with lt have "id' c < next_id db" by blast
    then show "id' c < next_id db + 1" by simp
  qed
  from assms(2)
  have d: "db' = db\<lparr>rows := rows db @ [new], next_id := next_id db + 1\<rparr>"
    and i: "id' new = next_id db"
    by (auto simp: create_contact_def Let_def split: if_splits)
  show ?thesis
    unfolding d using dist fresh lt' by (simp add: wf_store_def list_all_iff i)
qed

lemma wf_store_update:
  assumes "wf_store db" and "update_contact ts k user db n l e p b d = Inr (x, db')"
  shows "wf_store db'"
proof (cases "first (filter (\<lambda>c. id' c = k \<and> user_id c = uid user) (rows db))")
  case None
  with assms show ?thesis by (simp add: update_contact_def)
next
  case (Some t)
  from delete_found[OF assms(1) Some, of "assign_fields ts n l e p b d t"] obtain ys zs where
    s: "rows db = ys @ t # zs"
    and m: "map (\<lambda>x. if id' x = id' t then assign_fields ts n l e p b d t else x) (rows db) =
              ys @ assign_fields ts n l e p b d t # zs"
    by blast
  from assms(2) have "db' = db\<lparr>rows := ys @ assign_fields ts n l e p b d t # zs\<rparr>"
    unfolding update_found[OF Some] m by (simp split: if_splits)
  with assms(1) show ?thesis
    by (simp add: wf_store_def s assign_fields_id)
qed

lemma wf_store_delete:
  assumes "wf_store db"
  shows "wf_store (snd (delete_contact k user db))"
proof (cases "first (filter (\<lambda>c. id' c = k \<and> user_id c = uid user) (rows db))")
  case None
  with assms show ?thesis by (simp add: delete_contact_def)
next
  case (Some t)
  from delete_found[OF assms Some, of t] obtain ys zs where
    s: "rows db = ys @ t # zs"
    and dl: "delete_contact k user db = (Some t, db\<lparr>rows := ys @ zs\<rparr>)"
    by blast
  from assms show ?thesis
    unfolding dl by (simp add: wf_store_def s)
qed

text \<open>What the operations hand to their caller, and the birthday loop.\<close>

lemma reads_get: "get_contact k B db = Some r \<Longrightarrow> user_id r = uid B"
  unfolding get_contact_def by (drule first_filter_Some) simp

lemma reads_update:
  assumes "update_contact ts k B db n l e p b d = Inr (Some r, db')"
  shows "user_id r = uid B"
proof (cases "first (filter (\<lambda>c. id' c = k \<and> user_id c = uid B) (rows db))")
  case None
  with assms show ?thesis by (simp add: update_contact_def)
next
  case (Some t)
  from first_filter_Some[OF Some] have "user_id t = uid B" by simp
  moreover from assms have "r = assign_fields ts n l e p b d t"
    unfolding update_found[OF Some] by (simp split: if_splits)
  ultimately show ?thesis by (simp add: assign_fields_user_id)
qed

lemma reads_delete:
  assumes "fst (delete_contact k B db) = Some r"
  shows "user_id r = uid B"
proof (cases "first (filter (\<lambda>c. id' c = k \<and> user_id c = uid B) (rows db))")
  case None
  with assms show ?thesis by (simp add: delete_contact_def)
next
  case (Some t)
  from first_filter_Some[OF Some] have "user_id t = uid B" by simp
  moreover from assms Some have "r = t" by (simp add: delete_contact_def)
  ultimately show ?thesis by simp
qed

lemma reads_search:
  assumes "search_data B db n l e = Some r"
  shows "user_id r = uid B"
proof -
  from assms consider
      "first (filter (\<lambda>c. Some (name c) = n \<and> user_id c = uid B) (rows db)) = Some r"
    | "first (filter (\<lambda>c. Some (lastname c) = l \<and> user_id c = uid B) (rows db)) = Some r"
    | "first (filter (\<lambda>c. Some (lower (email c)) = map_option lower e \<and> user_id c = uid B)
         (rows db)) = Some r"
    by (auto simp: search_data_def split: if_splits)
  then show ?thesis
    by cases (drule first_filter_Some, simp)+
qed

lemma filter_owned_twice:
  "filter (\<lambda>x. P x \<and> Q x) (filter Q xs) = filter (\<lambda>x. P x \<and> Q x) xs"
  by (induction xs) auto

lemma filter_owned_same: "filter Q (filter Q xs) = filter Q xs"
  by (induction xs) auto

lemma birthday_loop_formable:
  "list_all (formable today) us \<Longrightarrow>
   birthday_loop today (add_days 6 today) us acc = Inr (acc @ filter (in_window today) us)"
proof (induction us arbitrary: acc)
  case Nil
  then show ?case by simp
next
  case (Cons u us)
  from Cons.prems have u: "formable today u" and us: "list_all (formable today) us" by simp_all
  from u have v: "valid_ymd (year today) (month (ts_date (born_date u))) (day (ts_date (born_date u)))"
    by (auto simp: formable_def birthday_this_year_def Let_def split: if_splits)
  show ?case
    using v Cons.IH[OF us]
    by (simp add: datetime_def in_window_def birthday_this_year_def Let_def)
qed

lemma birthday_to_week_formable:
  "list_all (formable today) (get_contacts user db) \<Longrightarrow>
   birthday_to_week user db today =
     (if get_contacts user db = [] then Inr None
      else Inr (Some (filter (in_window today) (get_contacts user db))))"
  using birthday_loop_formable[of today "get_contacts user db" "[]"]
  by (simp add: birthday_to_week_def get_contacts_def Let_def)

lemma birthday_no_contacts:
  "get_contacts user db = [] \<Longrightarrow> birthday_to_week user db today = Inr None"
  by (simp add: birthday_to_week_def get_contacts_def)

lemma birthday_loop_subset:
  "birthday_loop today week us acc = Inr hs \<Longrightarrow> set hs \<subseteq> set acc \<union> set us"
proof (induction us arbitrary: acc)
  case Nil
  then show ?case by simp
next
  case (Cons u us)
  show ?case
  proof (cases "datetime (year today) (month (ts_date (born_date u))) (day (ts_date (born_date u)))")
    case (Inl e)
    with Cons.prems show ?thesis by simp
  next
    case (Inr bday)
    show ?thesis
    proof (cases "date_le today bday \<and> date_le bday week")
      case True
      with Cons.prems Inr
      have "birthday_loop today week us (acc @ [u]) = Inr hs" by simp
      from Cons.IH[OF this] show ?thesis by auto
    next
      case False
      with Cons.prems Inr
      have "birthday_loop today week us acc = Inr hs" by auto
      from Cons.IH[OF this] show ?thesis by auto
    qed
  qed
qed

lemma reads_birthday:
  assumes "birthday_to_week B db today = Inr (Some rs)" and "r \<in> set rs"
  shows "user_id r = uid B"
proof -
  let ?users = "filter (\<lambda>c. user_id c = uid B) (rows db)"
  from assms(1) have "birthday_loop today (add_days 6 today) ?users [] = Inr rs"
    by (auto simp: birthday_to_week_def Let_def split: if_splits sum.splits)
  from birthday_loop_subset[OF this] assms(2) have "r \<in> set ?users" by auto
  then show ?thesis by simp
qed

lemma reads_owned:
  assumes "get_contact k B db = Some r
            \<or> (\<exists>db'. update_contact ts k B db n l e p b d = Inr (Some r, db'))
            \<or> fst (delete_contact k B db) = Some r
            \<or> search_data B db n l e = Some r
            \<or> (\<exists>rs. birthday_to_week B db today = Inr (Some rs) \<and> r \<in> set rs)"
  shows "user_id r = uid B"
proof -
  from assms consider
      (get) "get_contact k B db = Some r"
    | (update) db' where "update_contact ts k B db n l e p b d = Inr (Some r, db')"
    | (delete) "fst (delete_contact k B db) = Some r"
    | (search) "search_data B db n l e = Some r"
    | (birthday) rs where "birthday_to_week B db today = Inr (Some rs)" "r \<in> set rs"
    by blast
  then show ?thesis
  proof cases
    case get
    then show ?thesis by (rule reads_get)
  next
    case update
    then show ?thesis by (rule reads_update)
  next
    case delete
    then show ?thesis by (rule reads_delete)
  next
    case search
    then show ?thesis by (rule reads_search)
  next
    case birthday
    then show ?thesis by (rule reads_birthday)
  qed
qed

lemma foreign_rows_update:
  assumes "wf_store db" and "update_contact ts k B db n l e p b d = Inr (x, db')"
  shows "foreign_rows B db' = foreign_rows B db"
proof (cases "first (filter (\<lambda>c. id' c = k \<and> user_id c = uid B) (rows db))")
  case None
  with assms show ?thesis by (simp add: update_contact_def)
next
  case (Some t)
  from first_filter_Some[OF Some] have o: "user_id t = uid B" by simp
  from delete_found[OF assms(1) Some, of "assign_fields ts n l e p b d t"] obtain ys zs where
    s: "rows db = ys @ t # zs"
    and m: "map (\<lambda>x. if id' x = id' t then assign_fields ts n l e p b d t else x) (rows db) =
              ys @ assign_fields ts n l e p b d t # zs"
    by blast
  from assms(2) have "db' = db\<lparr>rows := ys @ assign_fields ts n l e p b d t # zs\<rparr>"
    unfolding update_found[OF Some] m by (simp split: if_splits)
  then show ?thesis
    by (simp add: foreign_rows_def s o assign_fields_user_id)
qed

lemma foreign_rows_delete:
  assumes "wf_store db"
  shows "foreign_rows B (snd (delete_contact k B db)) = foreign_rows B db"
proof (cases "first (filter (\<lambda>c. id' c = k \<and> user_id c = uid B) (rows db))")
  case None
  then show ?thesis by (simp add: delete_contact_def)
next
  case (Some t)
  from first_filter_Some[OF Some] have o: "user_id t = uid B" by simp
  from delete_found[OF assms Some, of t] obtain ys zs where
    s: "rows db = ys @ t # zs"
    and dl: "delete_contact k B db = (Some t, db\<lparr>rows := ys @ zs\<rparr>)"
    by blast
  show ?thesis
    unfolding dl by (simp add: foreign_rows_def s o)
qed

lemma own_rows_only:
  "get_contact k B (db\<lparr>rows := get_contacts B db\<rparr>) = get_contact k B db"
  "search_data B (db\<lparr>rows := get_contacts B db\<rparr>) n l e = search_data B db n l e"
  "birthday_to_week B (db\<lparr>rows := get_contacts B db\<rparr>) today = birthday_to_week B db today"
  by (simp_all add: get_contact_def search_data_def birthday_to_week_def get_contacts_def
      filter_owned_twice filter_owned_same del: filter_filter)


lemma wf_store0: "wf_store store0"
  by (simp add: wf_store_def store0_def bill_def deira_def)

lemma get_bill: "get_contact 1 alice store0 = Some bill"
  by (simp add: get_contact_def store0_def bill_def deira_def alice_def first_def)

lemma week24: "add_days 6 today24 = \<lparr>year = 2024, month = 6, day = 7\<rparr>"
  by (simp add: eval_nat_numeral today24_def next_day_def days_in_month_def)

lemma week25: "add_days 6 today25 = \<lparr>year = 2025, month = 6, day = 7\<rparr>"
  by (simp add: eval_nat_numeral today25_def next_day_def days_in_month_def)

lemma owned_june: "get_contacts alice store_june = [june3, june10]"
  by (simp add: get_contacts_def store_june_def june3_def june10_def alice_def)

lemma owned_leap: "get_contacts alice store_leap = [leapling, june3]"
  by (simp add: get_contacts_def store_leap_def june3_def leapling_def alice_def)

lemma owned_leap_only: "get_contacts alice store_leap_only = [leapling]"
  by (simp add: get_contacts_def store_leap_only_def leapling_def alice_def)

lemma owned_store0: "get_contacts alice store0 = [bill]" "get_contacts carol store0 = []"
  by (simp_all add: get_contacts_def store0_def bill_def deira_def alice_def carol_def)

lemma birthday_june3_24:
  "birthday_this_year today24 june3 = Some \<lparr>year = 2024, month = 6, day = 3\<rparr>"
  by (simp add: birthday_this_year_def june3_def today24_def valid_ymd_def days_in_month_def
      midnight_def)

lemma birthday_june10_24:
  "birthday_this_year today24 june10 = Some \<lparr>year = 2024, month = 6, day = 10\<rparr>"
  by (simp add: birthday_this_year_def june10_def today24_def valid_ymd_def days_in_month_def
      midnight_def)

lemma birthday_june3_25:
  "birthday_this_year today25 june3 = Some \<lparr>year = 2025, month = 6, day = 3\<rparr>"
  by (simp add: birthday_this_year_def june3_def today25_def valid_ymd_def days_in_month_def
      midnight_def)

lemma birthday_leapling_25: "birthday_this_year today25 leapling = None"
  by (simp add: birthday_this_year_def leapling_def today25_def valid_ymd_def days_in_month_def
      is_leap_def midnight_def)

lemma birthday_bill_24:
  "birthday_this_year today24 bill = Some \<lparr>year = 2024, month = 1, day = 12\<rparr>"
  by (simp add: birthday_this_year_def bill_def today24_def valid_ymd_def days_in_month_def
      midnight_def)

lemma in_window_june3_24: "in_window today24 june3"
  unfolding in_window_def birthday_june3_24 week24 by (simp add: date_le_def today24_def)

lemma in_window_june10_24: "\<not> in_window today24 june10"
  unfolding in_window_def birthday_june10_24 week24 by (simp add: date_le_def today24_def)

lemma in_window_june3_25: "in_window today25 june3"
  unfolding in_window_def birthday_june3_25 week25 by (simp add: date_le_def today25_def)

lemma in_window_leapling_25: "\<not> in_window today25 leapling"
  unfolding in_window_def birthday_leapling_25 by simp

lemma in_window_bill_24: "\<not> in_window today24 bill"
  unfolding in_window_def birthday_bill_24 week24 by (simp add: date_le_def today24_def)

lemma leapling_fault:
  "datetime (year today25) (month (ts_date (born_date leapling))) (day (ts_date (born_date leapling)))
     = Inl ValueError"
  by (simp add: datetime_def valid_ymd_def days_in_month_def is_leap_def today25_def leapling_def
      midnight_def)

section \<open>Partial update\<close>




section \<open>Search\<close>






section \<open>Creation and deletion\<close>




text \<open>
  Claim C7 (delete). When no row has the key \<open>contact_id\<close> and the owner \<open>user\<close>,
  \<open>delete_contact\<close> returns \<open>None\<close> and the store as it was. Otherwise it returns the row
  that \<open>get_contact\<close> finds, the row is gone from the store, no row is added, and
  \<open>get_contact\<close> with the same key and owner now returns \<open>None\<close>.
\<close>

theorem delete_semantics:
  "(\<not> (\<exists>c\<in>set (rows db). id' c = contact_id \<and> user_id c = uid user) \<longrightarrow>
      delete_contact contact_id user db = (None, db))
   \<and> ((\<exists>c\<in>set (rows db). id' c = contact_id \<and> user_id c = uid user) \<longrightarrow>
      (\<exists>item db'. get_contact contact_id user db = Some item
         \<and> delete_contact contact_id user db = (Some item, db')
         \<and> item \<notin> set (rows db')
         \<and> set (rows db') \<subseteq> set (rows db)
         \<and> get_contact contact_id user db' = None))"
proof (intro conjI impI)
  assume "\<not> (\<exists>c\<in>set (rows db). id' c = contact_id \<and> user_id c = uid user)"
  then have "first (filter (\<lambda>c. id' c = contact_id \<and> user_id c = uid user) (rows db)) = None"
    unfolding first_filter_None by blast
  then show "delete_contact contact_id user db = (None, db)"
    by (simp add: delete_contact_def)
next
  assume "\<exists>c\<in>set (rows db). id' c = contact_id \<and> user_id c = uid user"
  then have "first (filter (\<lambda>c. id' c = contact_id \<and> user_id c = uid user) (rows db)) \<noteq> None"
    unfolding first_filter_None by blast
  then obtain item where
    f: "first (filter (\<lambda>c. id' c = contact_id \<and> user_id c = uid user) (rows db)) = Some item"
    by blast
  from first_filter_Some[OF f] have i: "id' item = contact_id" by simp
  let ?db' = "db\<lparr>rows := filter (\<lambda>c. id' c \<noteq> id' item) (rows db)\<rparr>"
  have "get_contact contact_id user ?db' = None"
    unfolding get_contact_def first_filter_None using i by auto
  then show "\<exists>item db'. get_contact contact_id user db = Some item
         \<and> delete_contact contact_id user db = (Some item, db')
         \<and> item \<notin> set (rows db')
         \<and> set (rows db') \<subseteq> set (rows db)
         \<and> get_contact contact_id user db' = None"
    using f by (intro exI[of _ item] exI[of _ ?db']) (auto simp: get_contact_def delete_contact_def)
qed

theorem delete_semantics_witness:
  "bill \<in> set (rows store0) \<and> id' bill = 1 \<and> user_id bill = uid alice
   \<and> (\<exists>item db'. get_contact 1 alice store0 = Some item
         \<and> delete_contact 1 alice store0 = (Some item, db')
         \<and> item \<notin> set (rows db')
         \<and> get_contact 1 alice db' = None)
   \<and> delete_contact 1 bob store0 = (None, store0)"
proof -
  have h: "bill \<in> set (rows store0) \<and> id' bill = 1 \<and> user_id bill = uid alice"
    by (simp add: store0_def bill_def alice_def)
  then have e: "\<exists>c\<in>set (rows store0). id' c = 1 \<and> user_id c = uid alice" by blast
  have n: "\<not> (\<exists>c\<in>set (rows store0). id' c = 1 \<and> user_id c = uid bob)"
    by (simp add: store0_def bill_def deira_def bob_def)
  from delete_semantics[of store0 1 alice] e
  have 1: "\<exists>item db'. get_contact 1 alice store0 = Some item
         \<and> delete_contact 1 alice store0 = (Some item, db')
         \<and> item \<notin> set (rows db')
         \<and> get_contact 1 alice db' = None" by blast
  from delete_semantics[of store0 1 bob] n
  have 2: "delete_contact 1 bob store0 = (None, store0)" by blast
  from h 1 2 show ?thesis by blast
qed

section \<open>Frame of update and delete\<close>

text \<open>
  Claim C9 (frame and atomicity). In a store that respects the primary key: when no row has
  the key \<open>contact_id\<close> and the owner \<open>user\<close>, \<open>update_contact\<close> and \<open>delete_contact\<close>
  return \<open>None\<close> and the store as it was. When \<open>get_contact\<close> finds the row \<open>c\<close>, the store
  is \<open>ys @ c # zs\<close>; after a successful update it is \<open>ys\<close>, the updated row, \<open>zs\<close>, and
  after the delete it is \<open>ys @ zs\<close>: every other row of every owner, the order and the key
  sequence are as before. An update whose commit the store refuses raises and writes no
  store.
\<close>

theorem frame_atomicity:
  assumes "wf_store db"
  shows "(\<not> (\<exists>c\<in>set (rows db). id' c = contact_id \<and> user_id c = uid user) \<longrightarrow>
            update_contact ts contact_id user db n l e p b d = Inr (None, db)
            \<and> delete_contact contact_id user db = (None, db))
   \<and> (\<forall>c. get_contact contact_id user db = Some c \<longrightarrow>
         (\<exists>ys zs. rows db = ys @ c # zs
            \<and> update_contact ts contact_id user db n l e p b d =
                (if commit_ok ts n l e p b d
                 then Inr (Some (assign_fields ts n l e p b d c),
                        db\<lparr>rows := ys @ assign_fields ts n l e p b d c # zs\<rparr>)
                 else Inl StoreFailure)
            \<and> delete_contact contact_id user db = (Some c, db\<lparr>rows := ys @ zs\<rparr>)))"
proof (intro conjI impI allI)
  assume a: "\<not> (\<exists>c\<in>set (rows db). id' c = contact_id \<and> user_id c = uid user)"
  show "update_contact ts contact_id user db n l e p b d = Inr (None, db)"
    by (rule not_found(1)[OF a])
  show "delete_contact contact_id user db = (None, db)"
    by (rule not_found(2)[OF a])
next
  fix c
  assume "get_contact contact_id user db = Some c"
  then have f: "first (filter (\<lambda>c. id' c = contact_id \<and> user_id c = uid user) (rows db)) = Some c"
    by (simp add: get_contact_def)
  from delete_found[OF assms f, of "assign_fields ts n l e p b d c"] obtain ys zs where
    s: "rows db = ys @ c # zs"
    and m: "map (\<lambda>x. if id' x = id' c then assign_fields ts n l e p b d c else x) (rows db) =
              ys @ assign_fields ts n l e p b d c # zs"
    and dl: "delete_contact contact_id user db = (Some c, db\<lparr>rows := ys @ zs\<rparr>)"
    by blast
  have u: "update_contact ts contact_id user db n l e p b d =
                (if commit_ok ts n l e p b d
                 then Inr (Some (assign_fields ts n l e p b d c),
                        db\<lparr>rows := ys @ assign_fields ts n l e p b d c # zs\<rparr>)
                 else Inl StoreFailure)"
    unfolding update_found[OF f] m by (rule refl)
  show "\<exists>ys zs. rows db = ys @ c # zs
            \<and> update_contact ts contact_id user db n l e p b d =
                (if commit_ok ts n l e p b d
                 then Inr (Some (assign_fields ts n l e p b d c),
                        db\<lparr>rows := ys @ assign_fields ts n l e p b d c # zs\<rparr>)
                 else Inl StoreFailure)
            \<and> delete_contact contact_id user db = (Some c, db\<lparr>rows := ys @ zs\<rparr>)"
  proof (intro exI conjI)
    show "rows db = ys @ c # zs" by (rule s)
    show "update_contact ts contact_id user db n l e p b d =
                (if commit_ok ts n l e p b d
                 then Inr (Some (assign_fields ts n l e p b d c),
                        db\<lparr>rows := ys @ assign_fields ts n l e p b d c # zs\<rparr>)
                 else Inl StoreFailure)" by (rule u)
    show "delete_contact contact_id user db = (Some c, db\<lparr>rows := ys @ zs\<rparr>)" by (rule dl)
  qed
qed

theorem frame_atomicity_witness:
  "wf_store store0
   \<and> get_contact 1 alice store0 = Some bill
   \<and> (\<exists>ys zs. rows store0 = ys @ bill # zs
         \<and> update_contact engine 1 alice store0 (Some ''William'') None None None None None =
             Inr (Some (assign_fields engine (Some ''William'') None None None None None bill),
               store0\<lparr>rows := ys @ assign_fields engine (Some ''William'') None None None None None
                                   bill # zs\<rparr>)
         \<and> delete_contact 1 alice store0 = (Some bill, store0\<lparr>rows := ys @ zs\<rparr>))
   \<and> update_contact engine 1 bob store0 (Some ''William'') None None None None None
       = Inr (None, store0)
   \<and> delete_contact 1 bob store0 = (None, store0)"
proof -
  have n: "\<not> (\<exists>c\<in>set (rows store0). id' c = 1 \<and> user_id c = uid bob)"
    by (simp add: store0_def bill_def deira_def bob_def)
  have ok: "commit_ok engine (Some ''William'') None None None None None"
    by (simp add: commit_ok_def fits_def)
  note t1 = frame_atomicity[OF wf_store0, of 1 alice engine "Some ''William''" None None None None None]
  note t2 = frame_atomicity[OF wf_store0, of 1 bob engine "Some ''William''" None None None None None]
  from t1 get_bill have "\<exists>ys zs. rows store0 = ys @ bill # zs
         \<and> update_contact engine 1 alice store0 (Some ''William'') None None None None None =
             (if commit_ok engine (Some ''William'') None None None None None
              then Inr (Some (assign_fields engine (Some ''William'') None None None None None bill),
                     store0\<lparr>rows := ys @ assign_fields engine (Some ''William'') None None None None
                                         None bill # zs\<rparr>)
              else Inl StoreFailure)
         \<and> delete_contact 1 alice store0 = (Some bill, store0\<lparr>rows := ys @ zs\<rparr>)"
    by blast
  with ok have 1: "\<exists>ys zs. rows store0 = ys @ bill # zs
         \<and> update_contact engine 1 alice store0 (Some ''William'') None None None None None =
             Inr (Some (assign_fields engine (Some ''William'') None None None None None bill),
               store0\<lparr>rows := ys @ assign_fields engine (Some ''William'') None None None None None
                                   bill # zs\<rparr>)
         \<and> delete_contact 1 alice store0 = (Some bill, store0\<lparr>rows := ys @ zs\<rparr>)"
    by simp
  from t2 n have 2: "update_contact engine 1 bob store0 (Some ''William'') None None None None None
       = Inr (None, store0)
     \<and> delete_contact 1 bob store0 = (None, store0)"
    by blast
  from wf_store0 get_bill 1 2 show ?thesis by blast
qed

section \<open>Ownership\<close>

text \<open>
  Claim C1 (ownership isolation). In a store that respects the primary key let \<open>c\<close> be a row
  whose owner is not \<open>B\<close>. Then \<open>get_contact\<close> with the key of \<open>c\<close> and the owner \<open>B\<close>
  returns \<open>None\<close>, as it does in the store without \<open>c\<close>, and \<open>update_contact\<close> and
  \<open>delete_contact\<close> with that key return \<open>None\<close> and leave the store as it is. Every
  contact that \<open>get_contact\<close>, \<open>update_contact\<close>, \<open>delete_contact\<close>, \<open>search_data\<close> or
  \<open>birthday_to_week\<close> hands to \<open>B\<close> is owned by \<open>B\<close>; whatever store \<open>update_contact\<close> and
  \<open>delete_contact\<close> called by \<open>B\<close> write, the rows of the other owners in it are as they
  were; and \<open>get_contact\<close>, \<open>search_data\<close> and \<open>birthday_to_week\<close> give \<open>B\<close> the same result
  in the store that holds the rows of \<open>B\<close> alone.
\<close>

theorem ownership_isolation:
  assumes "wf_store db" and "c \<in> set (rows db)" and "user_id c \<noteq> uid B"
  shows "get_contact (id' c) B db = None
    \<and> get_contact (id' c) B (db\<lparr>rows := removeAll c (rows db)\<rparr>) = None
    \<and> update_contact ts (id' c) B db n l e p b d = Inr (None, db)
    \<and> delete_contact (id' c) B db = (None, db)
    \<and> (\<forall>r. get_contact k B db = Some r
            \<or> (\<exists>db'. update_contact ts k B db n l e p b d = Inr (Some r, db'))
            \<or> fst (delete_contact k B db) = Some r
            \<or> search_data B db n l e = Some r
            \<or> (\<exists>rs. birthday_to_week B db today = Inr (Some rs) \<and> r \<in> set rs)
          \<longrightarrow> user_id r = uid B)
    \<and> (\<forall>x db'. update_contact ts k B db n l e p b d = Inr (x, db')
          \<longrightarrow> foreign_rows B db' = foreign_rows B db)
    \<and> foreign_rows B (snd (delete_contact k B db)) = foreign_rows B db
    \<and> get_contact k B (db\<lparr>rows := get_contacts B db\<rparr>) = get_contact k B db
    \<and> search_data B (db\<lparr>rows := get_contacts B db\<rparr>) n l e = search_data B db n l e
    \<and> birthday_to_week B (db\<lparr>rows := get_contacts B db\<rparr>) today = birthday_to_week B db today"
proof -
  from assms(1) have dist: "distinct (map id' (rows db))" by (simp add: wf_store_def)
  have nf: "\<not> (\<exists>x\<in>set (rows db). id' x = id' c \<and> user_id x = uid B)"
    by (rule foreign_key_not_found[OF dist subset_refl assms(2,3)])
  have "set (rows (db\<lparr>rows := removeAll c (rows db)\<rparr>)) \<subseteq> set (rows db)" by auto
  from foreign_key_not_found[OF dist this assms(2,3)]
  have nf': "\<not> (\<exists>x\<in>set (rows (db\<lparr>rows := removeAll c (rows db)\<rparr>)).
                 id' x = id' c \<and> user_id x = uid B)" .
  have reads: "\<forall>r. get_contact k B db = Some r
            \<or> (\<exists>db'. update_contact ts k B db n l e p b d = Inr (Some r, db'))
            \<or> fst (delete_contact k B db) = Some r
            \<or> search_data B db n l e = Some r
            \<or> (\<exists>rs. birthday_to_week B db today = Inr (Some rs) \<and> r \<in> set rs)
          \<longrightarrow> user_id r = uid B"
    by (intro allI impI) (rule reads_owned)
  have writes: "\<forall>x db'. update_contact ts k B db n l e p b d = Inr (x, db')
          \<longrightarrow> foreign_rows B db' = foreign_rows B db"
    by (intro allI impI) (rule foreign_rows_update[OF assms(1)])
  show ?thesis
    using not_found(3)[OF nf] not_found(3)[OF nf'] not_found(1)[OF nf] not_found(2)[OF nf]
      reads writes foreign_rows_delete[OF assms(1)] own_rows_only
    by (intro conjI) blast+
qed

theorem ownership_isolation_witness:
  "wf_store store0 \<and> bill \<in> set (rows store0) \<and> user_id bill \<noteq> uid bob
   \<and> get_contact (id' bill) bob store0 = None
   \<and> update_contact engine (id' bill) bob store0 (Some ''William'') None None None None None
       = Inr (None, store0)
   \<and> delete_contact (id' bill) bob store0 = (None, store0)"
proof -
  have m: "bill \<in> set (rows store0)" by (simp add: store0_def)
  have o: "user_id bill \<noteq> uid bob" by (simp add: bill_def bob_def)
  from ownership_isolation[OF wf_store0 m o, of engine "Some ''William''" None None None None None]
  have "get_contact (id' bill) bob store0 = None
   \<and> update_contact engine (id' bill) bob store0 (Some ''William'') None None None None None
       = Inr (None, store0)
   \<and> delete_contact (id' bill) bob store0 = (None, store0)"
    by blast
  with wf_store0 m o show ?thesis by blast
qed

section \<open>Birthdays of the coming week\<close>

text \<open>
  Claim C5 (no contacts versus none in the window), at three inputs. An owner without rows
  gets \<open>None\<close>. On 2024-06-01 an owner whose one contact was born on 1988-01-12 has no
  birthday in the window and gets the empty list. On 2025-06-01, in a year that is not a
  leap year, an owner whose one contact was born on 1992-02-29 has no birthday in the
  window either, yet \<open>birthday_to_week\<close> raises \<open>ValueError\<close> where the claim asks for the
  empty list.
\<close>

theorem birthday_empty_window_fault:
  "get_contacts carol store0 = []
   \<and> birthday_to_week carol store0 today24 = Inr None
   \<and> get_contacts alice store0 = [bill]
   \<and> filter (in_window today24) (get_contacts alice store0) = []
   \<and> birthday_to_week alice store0 today24 = Inr (Some [])
   \<and> get_contacts alice store_leap_only = [leapling]
   \<and> filter (in_window today25) (get_contacts alice store_leap_only) = []
   \<and> birthday_to_week alice store_leap_only today25 = Inl ValueError"
proof -
  have 1: "birthday_to_week carol store0 today24 = Inr None"
    by (rule birthday_no_contacts) (rule owned_store0(2))
  have f: "list_all (formable today24) (get_contacts alice store0)"
    by (simp add: owned_store0 formable_def birthday_bill_24)
  have 2: "filter (in_window today24) (get_contacts alice store0) = []"
    by (simp add: owned_store0 in_window_bill_24)
  have 3: "birthday_to_week alice store0 today24 = Inr (Some [])"
    unfolding birthday_to_week_formable[OF f] 2 by (simp add: owned_store0)
  have 4: "filter (in_window today25) (get_contacts alice store_leap_only) = []"
    by (simp add: owned_leap_only in_window_leapling_25)
  have "filter (\<lambda>c. user_id c = uid alice) (rows store_leap_only) = [leapling]"
    using owned_leap_only by (simp add: get_contacts_def)
  then have 5: "birthday_to_week alice store_leap_only today25 = Inl ValueError"
    by (simp add: birthday_to_week_def Let_def leapling_fault)
  from owned_store0 1 2 3 owned_leap_only 4 5 show ?thesis by blast
qed

text \<open>
  Claim C10, amended (safety of the re-anchoring). When for every row of the owner the stored
  month and day form a date of the current year, \<open>birthday_to_week\<close> raises nothing: it
  returns \<open>None\<close> for an owner without rows and a list for an owner with at least one row.
\<close>

theorem birthday_never_faults:
  assumes "list_all (formable today) (get_contacts user db)"
  shows "(get_contacts user db = [] \<longrightarrow> birthday_to_week user db today = Inr None)
   \<and> (get_contacts user db \<noteq> [] \<longrightarrow>
        (\<exists>happy_users. birthday_to_week user db today = Inr (Some happy_users)))"
  using birthday_to_week_formable[OF assms] by simp

theorem birthday_never_faults_witness:
  "list_all (formable today24) (get_contacts alice store_june)
   \<and> get_contacts alice store_june \<noteq> []
   \<and> (\<exists>happy_users. birthday_to_week alice store_june today24 = Inr (Some happy_users))"
proof -
  have f: "list_all (formable today24) (get_contacts alice store_june)"
    by (simp add: owned_june formable_def birthday_june3_24 birthday_june10_24)
  have n: "get_contacts alice store_june \<noteq> []" by (simp add: owned_june)
  from birthday_never_faults[OF f] n
  have "\<exists>happy_users. birthday_to_week alice store_june today24 = Inr (Some happy_users)"
    by blast
  with f n show ?thesis by blast
qed

text \<open>
  Claim C10 as stated fails for an owner without rows: the precondition holds, no row being
  there to break it, and the operation returns \<open>None\<close>, which is not a list.
\<close>

theorem birthday_returns_list_counterexample:
  "list_all (formable today24) (get_contacts carol store0)
   \<and> birthday_to_week carol store0 today24 = Inr None"
  by (simp add: birthday_to_week_def get_contacts_def store0_def bill_def deira_def carol_def)

text \<open>
  Claim C2 (birthday window), at the spec's example and at an input where the code fails.
  On 2024-06-01 an owner with a contact born on 1990-06-03 and one born on 1985-06-10 gets
  the first one alone. On 2025-06-01, in a year that is not a leap year, an owner has a
  contact born on 1992-02-29 and one born on 1990-06-03: the contacts whose re-anchored
  birthday lies in the window are the second one alone, yet \<open>birthday_to_week\<close> raises
  \<open>ValueError\<close>, the date constructor refusing 2025-02-29.
\<close>

theorem birthday_window_examples:
  "birthday_to_week alice store_june today24 = Inr (Some [june3])
   \<and> filter (in_window today25) (get_contacts alice store_leap) = [june3]
   \<and> birthday_to_week alice store_leap today25 = Inl ValueError"
proof (intro conjI)
  have f: "list_all (formable today24) (get_contacts alice store_june)"
    by (simp add: owned_june formable_def birthday_june3_24 birthday_june10_24)
  show "birthday_to_week alice store_june today24 = Inr (Some [june3])"
    unfolding birthday_to_week_formable[OF f]
    by (simp add: owned_june in_window_june3_24 in_window_june10_24)
  show "filter (in_window today25) (get_contacts alice store_leap) = [june3]"
    by (simp add: owned_leap in_window_june3_25 in_window_leapling_25)
  have "filter (\<lambda>c. user_id c = uid alice) (rows store_leap) = [leapling, june3]"
    using owned_leap by (simp add: get_contacts_def)
  then show "birthday_to_week alice store_leap today25 = Inl ValueError"
    by (simp add: birthday_to_week_def Let_def leapling_fault)
qed

end
